theory Spec2Isabelle
  imports Main "HOL-Library.Sublist"
begin

section \<open>The booking backend of the ArgoCD book plugin\<close>

text \<open>
  The backend keeps no state of its own: a booking is a pair of annotations on the
  ArgoCD Application object, read and written through the Kubernetes dynamic client
  (\<^verbatim>\<open>backend/internal/k8s/client.go\<close>), and served over HTTP
  (\<^verbatim>\<open>backend/internal/handler/handler.go\<close>). Every function below takes the cluster
  it talks to and returns the cluster it leaves behind; a Go \<^verbatim>\<open>error\<close> is the
  message it carries, on the left of a sum.
\<close>

subsection \<open>Constants of \<^verbatim>\<open>client.go\<close>\<close>

definition AnnotationBookedBy :: string where
  "AnnotationBookedBy = ''booking.argocd.io/booked-by''"

definition AnnotationBookedAt :: string where
  "AnnotationBookedAt = ''booking.argocd.io/booked-at''"

subsection \<open>The time library\<close>

text \<open>
  The four things the backend asks of Go's \<^verbatim>\<open>time\<close> package, over a type \<open>'t\<close> of
  instants: \<^verbatim>\<open>t.UTC().Format(time.RFC3339)\<close>, \<^verbatim>\<open>time.Parse(time.RFC3339, s)\<close>
  (\<open>None\<close> is its error), the zero value \<^verbatim>\<open>time.Time{}\<close>, and
  \<^verbatim>\<open>t.UTC().Format("2006-01-02T15:04:05Z")\<close>. They are parameters of the model.
\<close>

record 't timelib =
  FormatRFC3339 :: "'t \<Rightarrow> string"
  ParseRFC3339 :: "string \<Rightarrow> 't option"
  zeroTime :: 't
  FormatStatus :: "'t \<Rightarrow> string"

text \<open>\<^verbatim>\<open>t, _ := time.Parse(...)\<close>: on an error \<^verbatim>\<open>time.Parse\<close> returns the zero time.\<close>

definition parseOrZero :: "'t timelib \<Rightarrow> string \<Rightarrow> 't" where
  "parseOrZero L s = (case ParseRFC3339 L s of None \<Rightarrow> zeroTime L | Some t \<Rightarrow> t)"

subsection \<open>Application objects and the cluster\<close>

text \<open>
  An \<^verbatim>\<open>unstructured.Unstructured\<close> as far as the backend reads it: the fields are named
  after the getters. \<open>GetAnnotations\<close> is \<open>None\<close> for Go's nil map.
\<close>

record Unstructured =
  GetNamespace :: string
  GetName :: string
  GetAnnotations :: "(string \<rightharpoonup> string) option"

text \<open>Indexing a Go \<^verbatim>\<open>map[string]string\<close>: a missing key reads as the empty string.\<close>

definition mapIndex :: "(string \<rightharpoonup> string) \<Rightarrow> string \<Rightarrow> string" where
  "mapIndex m k = (case m k of None \<Rightarrow> [] | Some v \<Rightarrow> v)"

text \<open>
  The annotations member of a JSON merge patch
  \<^verbatim>\<open>{"metadata":{"annotations":{...}}}\<close>: a key is left out (\<open>None\<close>), set to a
  string (\<open>Some (Some v)\<close>) or set to \<^verbatim>\<open>null\<close> (\<open>Some None\<close>), which removes it.
\<close>

type_synonym patch = "string \<rightharpoonup> string option"

datatype verb = VerbGet | VerbList | VerbPatch

text \<open>The calls that reached the API server, as the fake dynamic client of the tests records them.\<close>

datatype action =
    GetAction string string
  | ListAction string
  | PatchAction string string patch

text \<open>
  The cluster behind \<^verbatim>\<open>c.dynamic.Resource(applicationGVR)\<close>: the Application objects, the
  transport or access failure each verb currently meets (\<open>None\<close>: the verb works), and
  the log of calls.
\<close>

record cluster =
  objects :: "Unstructured list"
  faults :: "verb \<Rightarrow> string option"
  actions :: "action list"

definition hasKey :: "string \<Rightarrow> string \<Rightarrow> Unstructured \<Rightarrow> bool" where
  "hasKey namespace name obj \<longleftrightarrow> GetNamespace obj = namespace \<and> GetName obj = name"

definition notFound :: "string \<Rightarrow> string" where
  "notFound name = ''applications.argoproj.io '' @ [CHR 0x22] @ name @ [CHR 0x22] @ '' not found''"

definition mergePatch :: "patch \<Rightarrow> (string \<rightharpoonup> string) \<Rightarrow> (string \<rightharpoonup> string)" where
  "mergePatch p m = (\<lambda>k. case p k of None \<Rightarrow> m k | Some v \<Rightarrow> v)"

definition applyPatch :: "patch \<Rightarrow> Unstructured \<Rightarrow> Unstructured" where
  "applyPatch p obj =
     obj\<lparr>GetAnnotations :=
       Some (mergePatch p (case GetAnnotations obj of None \<Rightarrow> Map.empty | Some m \<Rightarrow> m))\<rparr>"

definition dynGet :: "cluster \<Rightarrow> string \<Rightarrow> string \<Rightarrow> (string + Unstructured) \<times> cluster" where
  "dynGet c namespace name =
     (let c' = c\<lparr>actions := actions c @ [GetAction namespace name]\<rparr> in
      case faults c VerbGet of
        Some e \<Rightarrow> (Inl e, c')
      | None \<Rightarrow>
          (case find (hasKey namespace name) (objects c) of
             None \<Rightarrow> (Inl (notFound name), c')
           | Some obj \<Rightarrow> (Inr obj, c')))"

text \<open>\<^verbatim>\<open>Namespace("")\<close> is every namespace: the list is then not narrowed.\<close>

definition dynList :: "cluster \<Rightarrow> string \<Rightarrow> (string + Unstructured list) \<times> cluster" where
  "dynList c namespace =
     (let c' = c\<lparr>actions := actions c @ [ListAction namespace]\<rparr> in
      case faults c VerbList of
        Some e \<Rightarrow> (Inl e, c')
      | None \<Rightarrow>
          (Inr (if namespace = [] then objects c
                else filter (\<lambda>obj. GetNamespace obj = namespace) (objects c)), c'))"

definition dynPatch ::
  "cluster \<Rightarrow> string \<Rightarrow> string \<Rightarrow> patch \<Rightarrow> (string + Unstructured) \<times> cluster" where
  "dynPatch c namespace name p =
     (let c' = c\<lparr>actions := actions c @ [PatchAction namespace name p]\<rparr> in
      case faults c VerbPatch of
        Some e \<Rightarrow> (Inl e, c')
      | None \<Rightarrow>
          (case find (hasKey namespace name) (objects c) of
             None \<Rightarrow> (Inl (notFound name), c')
           | Some obj \<Rightarrow>
               (Inr (applyPatch p obj),
                c'\<lparr>objects :=
                     map (\<lambda>x. if hasKey namespace name x then applyPatch p x else x)
                       (objects c)\<rparr>)))"

subsection \<open>Strings on the wire\<close>

text \<open>
  \<^verbatim>\<open>json.Marshal\<close> reads a string rune by rune with \<^verbatim>\<open>utf8.DecodeRuneInString\<close> and
  writes U+FFFD for every byte that starts no valid encoding. \<open>runeLen s\<close> is the
  length of the encoding at the head of \<open>s\<close>, and 0 where the decoder reports an error:
  the first byte selects the length and the range of the second byte, every further
  byte is a continuation byte.
\<close>

definition byte :: "char \<Rightarrow> nat" where
  "byte c = of_char c"

definition inRange :: "nat \<Rightarrow> nat \<Rightarrow> char \<Rightarrow> bool" where
  "inRange lo hi c \<longleftrightarrow> lo \<le> byte c \<and> byte c \<le> hi"

definition runeLen :: "string \<Rightarrow> nat" where
  "runeLen s =
     (case s of
        [] \<Rightarrow> 0
      | c0 # r \<Rightarrow>
          (let b0 = byte c0 in
           if b0 < 0x80 then 1
           else if b0 < 0xC2 \<or> 0xF4 < b0 then 0
           else
             (let lo = (if b0 = 0xE0 then 0xA0 else if b0 = 0xF0 then 0x90 else 0x80);
                  hi = (if b0 = 0xED then 0x9F else if b0 = 0xF4 then 0x8F else 0xBF);
                  n = (if b0 < 0xE0 then 2 else if b0 < 0xF0 then 3 else 4) in
              if n \<le> length s \<and> list_all (inRange lo hi) (take 1 r)
                 \<and> list_all (inRange 0x80 0xBF) (take (n - 2) (drop 1 r))
              then n else 0)))"

text \<open>The UTF-8 encoding of U+FFFD.\<close>

definition RuneError :: string where
  "RuneError = [CHR 0xEF, CHR 0xBF, CHR 0xBD]"

text \<open>
  The string a JSON reader gets from what \<^verbatim>\<open>json.Marshal\<close> wrote for \<open>s\<close>: the escapes
  decode to the bytes they stand for, so only the bytes replaced by U+FFFD differ.
\<close>

function jsonCoerce :: "string \<Rightarrow> string" where
  "jsonCoerce [] = []"
| "jsonCoerce (c # s) =
     (let n = runeLen (c # s) in
      if n = 0 then RuneError @ jsonCoerce s
      else take n (c # s) @ jsonCoerce (drop n (c # s)))"
  by pat_completeness auto
termination
  by (relation "measure length") auto


subsection \<open>\<^verbatim>\<open>client.go\<close>: the booking client\<close>

record Booking =
  AppName :: string
  Namespace :: string
  BookedBy :: string
  BookedAt :: string

text \<open>A Go slice, whose nil value is not the empty slice.\<close>

datatype 'a slice = NilSlice | Slice "'a list"

fun elems :: "'a slice \<Rightarrow> 'a list" where
  "elems NilSlice = []"
| "elems (Slice xs) = xs"

fun appendSlice :: "'a slice \<Rightarrow> 'a \<Rightarrow> 'a slice" where
  "appendSlice NilSlice x = Slice [x]"
| "appendSlice (Slice xs) x = Slice (xs @ [x])"

definition GetBookingStatus ::
  "'t timelib \<Rightarrow> cluster \<Rightarrow> string \<Rightarrow> string \<Rightarrow> (string + string \<times> 't) \<times> cluster" where
  "GetBookingStatus L c namespace appName =
     (case dynGet c namespace appName of
        (Inl err, c') \<Rightarrow>
          (Inl (''failed to get application '' @ namespace @ ''/'' @ appName @ '': '' @ err), c')
      | (Inr app, c') \<Rightarrow>
          (case GetAnnotations app of
             None \<Rightarrow> (Inr ([], zeroTime L), c')
           | Some annotations \<Rightarrow>
               (let bookedBy = mapIndex annotations AnnotationBookedBy in
                if bookedBy = [] then (Inr ([], zeroTime L), c')
                else (Inr (bookedBy, parseOrZero L (mapIndex annotations AnnotationBookedAt)), c'))))"

text \<open>
  \<open>now\<close> is the reading of \<^verbatim>\<open>time.Now()\<close>. The patch is what \<^verbatim>\<open>json.Marshal\<close> makes
  of the two values; on a map of strings it cannot fail, so the branch for its error
  has no counterpart.
\<close>

definition BookApp ::
  "'t timelib \<Rightarrow> 't \<Rightarrow> cluster \<Rightarrow> string \<Rightarrow> string \<Rightarrow> string \<Rightarrow> (string + unit) \<times> cluster" where
  "BookApp L now c namespace appName username =
     (case GetBookingStatus L c namespace appName of
        (Inl err, c1) \<Rightarrow> (Inl err, c1)
      | (Inr (bookedBy, _), c1) \<Rightarrow>
          if bookedBy \<noteq> [] \<and> bookedBy \<noteq> username then
            (Inl (''conflict: application already booked by '' @ bookedBy), c1)
          else if bookedBy = username then (Inr (), c1)
          else
            (let patch = [AnnotationBookedBy \<mapsto> Some (jsonCoerce username),
                          AnnotationBookedAt \<mapsto> Some (jsonCoerce (FormatRFC3339 L now))] in
             case dynPatch c1 namespace appName patch of
               (Inl err, c2) \<Rightarrow>
                 (Inl (''failed to patch application '' @ namespace @ ''/'' @ appName @ '': '' @ err), c2)
             | (Inr _, c2) \<Rightarrow> (Inr (), c2)))"

definition UnbookApp ::
  "'t timelib \<Rightarrow> cluster \<Rightarrow> string \<Rightarrow> string \<Rightarrow> string \<Rightarrow> bool \<Rightarrow> (string + unit) \<times> cluster" where
  "UnbookApp L c namespace appName username isAdmin =
     (case GetBookingStatus L c namespace appName of
        (Inl err, c1) \<Rightarrow> (Inl err, c1)
      | (Inr (bookedBy, _), c1) \<Rightarrow>
          if bookedBy = [] then (Inr (), c1)
          else if bookedBy \<noteq> username \<and> \<not> isAdmin then
            (Inl (''forbidden: application is booked by '' @ bookedBy
                  @ '', only they or an admin can unbook''), c1)
          else
            (let patch = [AnnotationBookedBy \<mapsto> None, AnnotationBookedAt \<mapsto> None] in
             case dynPatch c1 namespace appName patch of
               (Inl err, c2) \<Rightarrow>
                 (Inl (''failed to patch application '' @ namespace @ ''/'' @ appName @ '': '' @ err), c2)
             | (Inr _, c2) \<Rightarrow> (Inr (), c2)))"

definition extractBooking :: "Unstructured \<Rightarrow> Booking option" where
  "extractBooking app =
     (case GetAnnotations app of
        None \<Rightarrow> None
      | Some annotations \<Rightarrow>
          (let bookedBy = mapIndex annotations AnnotationBookedBy in
           if bookedBy = [] then None
           else Some \<lparr>AppName = GetName app, Namespace = GetNamespace app,
                      BookedBy = bookedBy,
                      BookedAt = mapIndex annotations AnnotationBookedAt\<rparr>))"

text \<open>The \<^verbatim>\<open>for _, item := range list.Items\<close> loop, with \<open>bookings\<close> as it stands so far.\<close>

fun collectBookings :: "Unstructured list \<Rightarrow> Booking slice \<Rightarrow> Booking slice" where
  "collectBookings [] bookings = bookings"
| "collectBookings (item # items) bookings =
     (case extractBooking item of
        None \<Rightarrow> collectBookings items bookings
      | Some b \<Rightarrow> collectBookings items (appendSlice bookings b))"

definition ListBookings :: "cluster \<Rightarrow> string \<Rightarrow> (string + Booking slice) \<times> cluster" where
  "ListBookings c namespace =
     (case dynList c namespace of
        (Inl err, c') \<Rightarrow>
          (Inl (''failed to list applications in '' @ namespace @ '': '' @ err), c')
      | (Inr items, c') \<Rightarrow> (Inr (collectBookings items NilSlice), c'))"

subsection \<open>\<^verbatim>\<open>handler.go\<close>: the HTTP handlers\<close>

definition headerAppName :: string where
  "headerAppName = ''Argocd-Application-Name''"

definition headerUsername :: string where
  "headerUsername = ''Argocd-Username''"

definition headerUserGroups :: string where
  "headerUserGroups = ''Argocd-User-Groups''"

definition adminGroup :: string where
  "adminGroup = ''admin''"

text \<open>
  A request as the handlers read it: the header fields and the URL query, each a map
  from a name to the values given for it. \<open>valuesGet\<close> is \<^verbatim>\<open>Header.Get\<close> and
  \<^verbatim>\<open>url.Values.Get\<close>: the first value, or the empty string when there is none.
\<close>

record Request =
  Header :: "string \<rightharpoonup> string list"
  URLQuery :: "string \<rightharpoonup> string list"

definition valuesGet :: "(string \<rightharpoonup> string list) \<Rightarrow> string \<Rightarrow> string" where
  "valuesGet h key = (case h key of None \<Rightarrow> [] | Some [] \<Rightarrow> [] | Some (v # _) \<Rightarrow> v)"

text \<open>
  The response: the status code, the content type and the JSON value that
  \<^verbatim>\<open>json.NewEncoder(w).Encode\<close> writes, in which a string is what \<open>jsonCoerce\<close> makes
  of the Go string. Log lines are not part of it.
\<close>

datatype json =
    JNull
  | JBool bool
  | JString string
  | JArray "json list"
  | JObject "(string \<times> json) list"

record Response =
  StatusCode :: nat
  ContentType :: string
  Body :: json

text \<open>\<^verbatim>\<open>strings.SplitN(s, sep, 2)\<close> for a one-byte separator: cut at its first occurrence.\<close>

fun cutAt :: "char \<Rightarrow> string \<Rightarrow> (string \<times> string) option" where
  "cutAt sep [] = None"
| "cutAt sep (c # s) =
     (if c = sep then Some ([], s)
      else (case cutAt sep s of None \<Rightarrow> None | Some (a, b) \<Rightarrow> Some (c # a, b)))"

definition SplitN2 :: "string \<Rightarrow> char \<Rightarrow> string list" where
  "SplitN2 s sep = (case cutAt sep s of None \<Rightarrow> [s] | Some (a, b) \<Rightarrow> [a, b])"

text \<open>\<^verbatim>\<open>strings.Split(s, sep)\<close> for a one-byte separator; the empty string gives one empty field.\<close>

fun Split :: "string \<Rightarrow> char \<Rightarrow> string list" where
  "Split [] sep = [] # []"
| "Split (c # s) sep =
     (if c = sep then [] # Split s sep
      else (case Split s sep of [] \<Rightarrow> [c] # [] | x # xs \<Rightarrow> (c # x) # xs))"

text \<open>
  The UTF-8 encodings of the runes for which \<^verbatim>\<open>unicode.IsSpace\<close> holds: tab, line feed,
  vertical tab, form feed, carriage return, space, U+0085, U+00A0, U+1680, U+2000 to
  U+200A, U+2028, U+2029, U+202F, U+205F and U+3000.
\<close>

definition spaceRunes :: "string list" where
  "spaceRunes =
     [CHR 0x09] # [CHR 0x0A] # [CHR 0x0B] # [CHR 0x0C] # [CHR 0x0D] # [CHR 0x20] #
     [CHR 0xC2, CHR 0x85] # [CHR 0xC2, CHR 0xA0] #
     [CHR 0xE1, CHR 0x9A, CHR 0x80] #
     map (\<lambda>c. [CHR 0xE2, CHR 0x80, c])
       [CHR 0x80, CHR 0x81, CHR 0x82, CHR 0x83, CHR 0x84, CHR 0x85, CHR 0x86, CHR 0x87,
        CHR 0x88, CHR 0x89, CHR 0x8A, CHR 0xA8, CHR 0xA9, CHR 0xAF] @
     [CHR 0xE2, CHR 0x81, CHR 0x9F] # [CHR 0xE3, CHR 0x80, CHR 0x80] # []"

text \<open>Cut entries of \<open>es\<close> off the front of \<open>s\<close> for as long as one is there.\<close>

function trimPrefixes :: "string list \<Rightarrow> string \<Rightarrow> string" where
  "trimPrefixes es s =
     (case find (\<lambda>e. e \<noteq> [] \<and> prefix e s) es of
        None \<Rightarrow> s
      | Some e \<Rightarrow> trimPrefixes es (drop (length e) s))"
  by pat_completeness auto
termination
proof (relation "measure (\<lambda>(es, s). length s)")
  show "wf (measure (\<lambda>(es, s). length s))" by simp
next
  fix es :: "string list" and s e :: string
  assume "find (\<lambda>e. e \<noteq> [] \<and> prefix e s) es = Some e"
  then have "e \<noteq> []" and "prefix e s"
    by (auto simp add: find_Some_iff)
  then have "length e \<le> length s" and "0 < length e"
    by (auto simp add: prefix_length_le)
  then show "((es, drop (length e) s), (es, s)) \<in> measure (\<lambda>(es, s). length s)"
    by (cases e) simp_all
qed

text \<open>
  \<^verbatim>\<open>strings.TrimSpace\<close>: the white space runes are cut off the front, then off the
  back, where a string ends in a rune exactly when it ends in the rune's encoding.
\<close>

definition TrimSpace :: "string \<Rightarrow> string" where
  "TrimSpace s = rev (trimPrefixes (map rev spaceRunes) (rev (trimPrefixes spaceRunes s)))"

text \<open>\<^verbatim>\<open>strings.Contains(s, substr)\<close>.\<close>

fun Contains :: "string \<Rightarrow> string \<Rightarrow> bool" where
  "Contains [] substr = (substr = [])"
| "Contains (c # s) substr = (prefix substr (c # s) \<or> Contains s substr)"

text \<open>\<open>None\<close> is the result with \<^verbatim>\<open>ok == false\<close>.\<close>

definition parseAppHeader :: "Request \<Rightarrow> (string \<times> string) option" where
  "parseAppHeader r =
     (let raw = valuesGet (Header r) headerAppName in
      if raw = [] then None
      else (case SplitN2 raw CHR '':'' of
              [namespace, appName] \<Rightarrow>
                if namespace = [] \<or> appName = [] then None else Some (namespace, appName)
            | _ \<Rightarrow> None))"

definition isAdmin :: "Request \<Rightarrow> bool" where
  "isAdmin r =
     (let groups = valuesGet (Header r) headerUserGroups in
      list_ex (\<lambda>g. TrimSpace g = adminGroup) (Split groups CHR '',''))"

definition writeJSON :: "nat \<Rightarrow> json \<Rightarrow> Response" where
  "writeJSON status v = \<lparr>StatusCode = status, ContentType = ''application/json'', Body = v\<rparr>"

definition writeError :: "nat \<Rightarrow> string \<Rightarrow> Response" where
  "writeError status msg = writeJSON status (JObject [(''error'', JString (jsonCoerce msg))])"

text \<open>The JSON of a \<^verbatim>\<open>statusResponse\<close>: the two \<^verbatim>\<open>omitempty\<close> fields are dropped when empty.\<close>

definition statusResponse :: "bool \<Rightarrow> string \<Rightarrow> string \<Rightarrow> json" where
  "statusResponse booked bookedBy bookedAt =
     JObject ([(''booked'', JBool booked)]
              @ (if bookedBy = [] then [] else [(''bookedBy'', JString (jsonCoerce bookedBy))])
              @ (if bookedAt = [] then [] else [(''bookedAt'', JString (jsonCoerce bookedAt))]))"

definition bookingJSON :: "Booking \<Rightarrow> json" where
  "bookingJSON b =
     JObject [(''appName'', JString (jsonCoerce (AppName b))),
              (''namespace'', JString (jsonCoerce (Namespace b))),
              (''bookedBy'', JString (jsonCoerce (BookedBy b))),
              (''bookedAt'', JString (jsonCoerce (BookedAt b)))]"

text \<open>The JSON of a \<^verbatim>\<open>[]k8s.Booking\<close>: a nil slice is encoded as \<^verbatim>\<open>null\<close>.\<close>

fun bookingsJSON :: "Booking slice \<Rightarrow> json" where
  "bookingsJSON NilSlice = JNull"
| "bookingsJSON (Slice bs) = JArray (map bookingJSON bs)"

definition badAppHeader :: string where
  "badAppHeader =
     ''missing or invalid Argocd-Application-Name header (expected namespace:appname)''"

text \<open>The handler's client is the cluster \<open>h\<close>; each handler returns what it wrote and the cluster after.\<close>

definition Status :: "'t timelib \<Rightarrow> cluster \<Rightarrow> Request \<Rightarrow> Response \<times> cluster" where
  "Status L h r =
     (case parseAppHeader r of
        None \<Rightarrow> (writeError 400 badAppHeader, h)
      | Some (ns, app) \<Rightarrow>
          (case GetBookingStatus L h ns app of
             (Inl err, h') \<Rightarrow> (writeError 500 ''failed to get booking status'', h')
           | (Inr (bookedBy, bookedAt), h') \<Rightarrow>
               (writeJSON 200
                  (if bookedBy \<noteq> [] then statusResponse True bookedBy (FormatStatus L bookedAt)
                   else statusResponse False [] []), h')))"

definition Book :: "'t timelib \<Rightarrow> 't \<Rightarrow> cluster \<Rightarrow> Request \<Rightarrow> Response \<times> cluster" where
  "Book L now h r =
     (case parseAppHeader r of
        None \<Rightarrow> (writeError 400 badAppHeader, h)
      | Some (ns, app) \<Rightarrow>
          (let username = valuesGet (Header r) headerUsername in
           if username = [] then (writeError 400 ''missing Argocd-Username header'', h)
           else
             (case BookApp L now h ns app username of
                (Inl err, h') \<Rightarrow>
                  if Contains err ''conflict:'' then (writeError 409 err, h')
                  else (writeError 500 ''failed to book application'', h')
              | (Inr _, h') \<Rightarrow> (writeJSON 200 (JObject [(''status'', JString ''booked'')]), h'))))"

definition Unbook :: "'t timelib \<Rightarrow> cluster \<Rightarrow> Request \<Rightarrow> Response \<times> cluster" where
  "Unbook L h r =
     (case parseAppHeader r of
        None \<Rightarrow> (writeError 400 badAppHeader, h)
      | Some (ns, app) \<Rightarrow>
          (let username = valuesGet (Header r) headerUsername in
           if username = [] then (writeError 400 ''missing Argocd-Username header'', h)
           else
             (case UnbookApp L h ns app username (isAdmin r) of
                (Inl err, h') \<Rightarrow>
                  if Contains err ''forbidden:'' then (writeError 403 err, h')
                  else (writeError 500 ''failed to unbook application'', h')
              | (Inr _, h') \<Rightarrow> (writeJSON 200 (JObject [(''status'', JString ''unbooked'')]), h'))))"

definition List :: "cluster \<Rightarrow> Request \<Rightarrow> Response \<times> cluster" where
  "List h r =
     (let ns0 = valuesGet (URLQuery r) ''namespace'';
          ns = (if ns0 = [] then ''argocd'' else ns0) in
      case ListBookings h ns of
        (Inl err, h') \<Rightarrow> (writeError 500 ''failed to list bookings'', h')
      | (Inr bookings, h') \<Rightarrow>
          (let bookings' = (if bookings = NilSlice then Slice [] else bookings) in
           (writeJSON 200 (bookingsJSON bookings'), h')))"

subsection \<open>Reading the cluster, and sample data\<close>

text \<open>The value stored under annotation \<open>k\<close> on the application \<open>namespace/name\<close>, if any.\<close>

definition annotation :: "cluster \<Rightarrow> string \<Rightarrow> string \<Rightarrow> string \<Rightarrow> string option" where
  "annotation c namespace name k =
     (case find (hasKey namespace name) (objects c) of
        None \<Rightarrow> None
      | Some obj \<Rightarrow> (case GetAnnotations obj of None \<Rightarrow> None | Some m \<Rightarrow> m k))"

text \<open>
  An instance of the time library for the examples: an instant is its own RFC 3339
  text in UTC with whole seconds, \<^verbatim>\<open>2026-01-15T10:00:00Z\<close>, and the zero time is
  \<^verbatim>\<open>0001-01-01T00:00:00Z\<close>.
\<close>

definition isStamp :: "string \<Rightarrow> bool" where
  "isStamp s \<longleftrightarrow>
     list_all2 (\<lambda>c p. if p = CHR ''d'' then c \<in> set ''0123456789'' else c = p)
       s ''dddd-dd-ddTdd:dd:ddZ''"

definition stampLib :: "string timelib" where
  "stampLib = \<lparr>FormatRFC3339 = (\<lambda>t. t),
               ParseRFC3339 = (\<lambda>s. if isStamp s then Some s else None),
               zeroTime = ''0001-01-01T00:00:00Z'',
               FormatStatus = (\<lambda>t. t)\<rparr>"

text \<open>
  The three applications of \<^verbatim>\<open>TestListBookings\<close>, and a fourth whose annotations name a
  holder but carry no time.
\<close>

definition testCluster :: cluster where
  "testCluster =
     \<lparr>objects =
        [\<lparr>GetNamespace = ''argocd'', GetName = ''app1'',
          GetAnnotations = Some [AnnotationBookedBy \<mapsto> ''alice'',
                                 AnnotationBookedAt \<mapsto> ''2026-01-15T10:00:00Z'']\<rparr>,
         \<lparr>GetNamespace = ''argocd'', GetName = ''app2'', GetAnnotations = None\<rparr>,
         \<lparr>GetNamespace = ''argocd'', GetName = ''app3'',
          GetAnnotations = Some [AnnotationBookedBy \<mapsto> ''bob'',
                                 AnnotationBookedAt \<mapsto> ''2026-01-15T11:00:00Z'']\<rparr>,
         \<lparr>GetNamespace = ''argocd'', GetName = ''app4'',
          GetAnnotations = Some [AnnotationBookedBy \<mapsto> ''carol'']\<rparr>],
      faults = (\<lambda>_. None),
      actions = []\<rparr>"

definition testRequest :: "string \<Rightarrow> string list \<Rightarrow> Request" where
  "testRequest app users =
     \<lparr>Header = [headerAppName \<mapsto> [app], headerUsername \<mapsto> users], URLQuery = Map.empty\<rparr>"

section \<open>Properties\<close>

subsection \<open>The cluster and \<open>GetBookingStatus\<close>\<close>

lemma annotation_keys_distinct: "AnnotationBookedBy \<noteq> AnnotationBookedAt"
  by (simp add: AnnotationBookedBy_def AnnotationBookedAt_def)

lemma hasKey_applyPatch: "hasKey namespace name (applyPatch p obj) = hasKey namespace name obj"
  by (simp add: hasKey_def applyPatch_def)

lemma find_patched:
  "find (hasKey namespace name)
     (map (\<lambda>x. if hasKey namespace name x then applyPatch p x else x) objs)
     = map_option (applyPatch p) (find (hasKey namespace name) objs)"
  by (induction objs) (auto simp add: hasKey_applyPatch)

lemma dynPatch_ok:
  assumes "faults c VerbPatch = None" and "find (hasKey namespace name) (objects c) = Some obj"
  shows "dynPatch c namespace name p =
    (Inr (applyPatch p obj),
     c\<lparr>actions := actions c @ [PatchAction namespace name p],
       objects := map (\<lambda>x. if hasKey namespace name x then applyPatch p x else x) (objects c)\<rparr>)"
  using assms by (simp add: dynPatch_def Let_def)

lemma annotation_dynPatch:
  assumes "faults c VerbPatch = None" and "find (hasKey namespace name) (objects c) = Some obj"
  shows "annotation (snd (dynPatch c namespace name p)) namespace name k =
           (case p k of None \<Rightarrow> annotation c namespace name k | Some v \<Rightarrow> v)"
  using assms
  by (simp add: dynPatch_ok annotation_def find_patched applyPatch_def mergePatch_def
      split: option.splits)

lemma annotation_actions [simp]:
  "annotation (c\<lparr>actions := a\<rparr>) namespace name k = annotation c namespace name k"
  by (simp add: annotation_def)

lemma snd_GetBookingStatus:
  "snd (GetBookingStatus L c namespace appName) =
     c\<lparr>actions := actions c @ [GetAction namespace appName]\<rparr>"
  by (simp add: GetBookingStatus_def dynGet_def Let_def split: option.splits)

lemma GetBookingStatus_Inr_iff:
  "fst (GetBookingStatus L c namespace appName) = Inr (bookedBy, t) \<longleftrightarrow>
     faults c VerbGet = None \<and>
     (\<exists>obj. find (hasKey namespace appName) (objects c) = Some obj) \<and>
     bookedBy = (case annotation c namespace appName AnnotationBookedBy of
                   None \<Rightarrow> [] | Some v \<Rightarrow> v) \<and>
     t = (if bookedBy = [] then zeroTime L
          else parseOrZero L (case annotation c namespace appName AnnotationBookedAt of
                                None \<Rightarrow> [] | Some v \<Rightarrow> v))"
  by (auto simp add: GetBookingStatus_def dynGet_def Let_def annotation_def mapIndex_def
      split: option.splits)

lemma fst_GetBookingStatus_actions [simp]:
  "fst (GetBookingStatus L (c\<lparr>actions := a\<rparr>) namespace appName) =
   fst (GetBookingStatus L c namespace appName)"
  by (simp add: GetBookingStatus_def dynGet_def Let_def split: option.splits)

lemma GetBookingStatus_eq:
  assumes "fst (GetBookingStatus L c namespace appName) = x"
  shows "GetBookingStatus L c namespace appName =
           (x, c\<lparr>actions := actions c @ [GetAction namespace appName]\<rparr>)"
  using assms snd_GetBookingStatus [of L c namespace appName] by (metis prod.collapse)





subsection \<open>\<open>ListBookings\<close>\<close>

lemma elems_appendSlice: "elems (appendSlice s x) = elems s @ [x]"
  by (cases s) simp_all

lemma elems_collectBookings:
  "elems (collectBookings items acc) = elems acc @ List.map_filter extractBooking items"
  by (induction items arbitrary: acc)
    (simp_all add: List.map_filter_simps elems_appendSlice split: option.splits)

lemma find_distinct_key:
  assumes "distinct (map (\<lambda>obj. (GetNamespace obj, GetName obj)) objs)" and "obj \<in> set objs"
  shows "find (hasKey (GetNamespace obj) (GetName obj)) objs = Some obj"
  using assms
proof (induction objs)
  case Nil
  then show ?case by simp
next
  case (Cons x xs)
  show ?case
  proof (cases "x = obj")
    case True
    then show ?thesis by (simp add: hasKey_def)
  next
    case False
    with Cons.prems have mem: "obj \<in> set xs" by simp
    from Cons.prems have "(GetNamespace x, GetName x) \<notin> (\<lambda>obj. (GetNamespace obj, GetName obj)) ` set xs"
      by simp
    with mem have "\<not> hasKey (GetNamespace obj) (GetName obj) x"
      by (auto simp add: hasKey_def image_iff)
    moreover from Cons.prems mem have "find (hasKey (GetNamespace obj) (GetName obj)) xs = Some obj"
      by (intro Cons.IH) simp_all
    ultimately show ?thesis by simp
  qed
qed

lemma find_hasKey_SomeD:
  "find (hasKey namespace name) objs = Some obj \<Longrightarrow>
     obj \<in> set objs \<and> GetNamespace obj = namespace \<and> GetName obj = name"
  by (induction objs) (auto simp add: hasKey_def split: if_splits)

lemma extractBooking_Some_iff:
  "extractBooking obj = Some b \<longleftrightarrow>
     (\<exists>m. GetAnnotations obj = Some m \<and> m AnnotationBookedBy = Some (BookedBy b) \<and>
          BookedBy b \<noteq> [] \<and> AppName b = GetName obj \<and> Namespace b = GetNamespace obj \<and>
          BookedAt b = (case m AnnotationBookedAt of None \<Rightarrow> [] | Some v \<Rightarrow> v))"
  by (cases b) (auto simp add: extractBooking_def mapIndex_def Let_def split: option.splits)

lemma listed_iff:
  assumes keys: "distinct (map (\<lambda>obj. (GetNamespace obj, GetName obj)) (objects c))"
  shows "b \<in> set (List.map_filter extractBooking
                    (filter (\<lambda>obj. P (GetNamespace obj)) (objects c))) \<longleftrightarrow>
         P (Namespace b) \<and> BookedBy b \<noteq> [] \<and>
         annotation c (Namespace b) (AppName b) AnnotationBookedBy = Some (BookedBy b) \<and>
         BookedAt b = (case annotation c (Namespace b) (AppName b) AnnotationBookedAt of
                         None \<Rightarrow> [] | Some v \<Rightarrow> v)"
    (is "?l \<longleftrightarrow> ?r")
proof
  assume ?l
  then obtain obj where obj: "obj \<in> set (objects c)" "P (GetNamespace obj)"
    "extractBooking obj = Some b"
    by (auto simp add: List.map_filter_def)
  from obj(3) obtain m where m: "GetAnnotations obj = Some m"
    "m AnnotationBookedBy = Some (BookedBy b)" "BookedBy b \<noteq> []" "AppName b = GetName obj"
    "Namespace b = GetNamespace obj"
    "BookedAt b = (case m AnnotationBookedAt of None \<Rightarrow> [] | Some v \<Rightarrow> v)"
    by (auto simp add: extractBooking_Some_iff)
  have "find (hasKey (Namespace b) (AppName b)) (objects c) = Some obj"
    using find_distinct_key [OF keys obj(1)] m(4,5) by simp
  then show ?r using m obj(2) by (simp add: annotation_def)
next
  assume r: ?r
  then obtain obj m where
    found: "find (hasKey (Namespace b) (AppName b)) (objects c) = Some obj"
    and m: "GetAnnotations obj = Some m" "m AnnotationBookedBy = Some (BookedBy b)"
    by (auto simp add: annotation_def split: option.splits)
  from find_hasKey_SomeD [OF found] have obj: "obj \<in> set (objects c)"
    "GetNamespace obj = Namespace b" "GetName obj = AppName b" by simp_all
  have "extractBooking obj = Some b"
    using r m obj found by (simp add: extractBooking_Some_iff annotation_def)
  then show ?l using obj r by (force simp add: List.map_filter_def)
qed

lemma dynList_filter:
  "(if namespace = [] then objs else filter (\<lambda>obj. GetNamespace obj = namespace) objs) =
     filter (\<lambda>obj. namespace = [] \<or> GetNamespace obj = namespace) objs"
  by simp

subsection \<open>The handlers\<close>

lemma cutAt_None_iff: "cutAt sep s = None \<longleftrightarrow> sep \<notin> set s"
  by (induction s) (auto split: option.splits)

lemma cutAt_Some_iff: "cutAt sep s = Some (a, b) \<longleftrightarrow> s = a @ sep # b \<and> sep \<notin> set a"
proof (induction s arbitrary: a)
  case Nil
  then show ?case by simp
next
  case (Cons c s)
  show ?case
  proof (cases "c = sep")
    case True
    have "cutAt sep (c # s) = Some (a, b) \<longleftrightarrow> a = [] \<and> b = s"
      using True by auto
    also have "\<dots> \<longleftrightarrow> c # s = a @ sep # b \<and> sep \<notin> set a"
      using True by (cases a) auto
    finally show ?thesis .
  next
    case False
    have "cutAt sep (c # s) = Some (a, b) \<longleftrightarrow>
            (\<exists>a'. a = c # a' \<and> cutAt sep s = Some (a', b))"
      using False by (auto split: option.splits)
    also have "\<dots> \<longleftrightarrow> (\<exists>a'. a = c # a' \<and> s = a' @ sep # b \<and> sep \<notin> set a')"
      by (simp only: Cons.IH)
    also have "\<dots> \<longleftrightarrow> c # s = a @ sep # b \<and> sep \<notin> set a"
      using False by (cases a) auto
    finally show ?thesis .
  qed
qed

lemma parseAppHeader_cutAt:
  "parseAppHeader r = Some (scope, name) \<longleftrightarrow>
     cutAt CHR '':'' (valuesGet (Header r) headerAppName) = Some (scope, name) \<and>
     scope \<noteq> [] \<and> name \<noteq> []"
proof (cases "cutAt CHR '':'' (valuesGet (Header r) headerAppName)")
  case None
  then show ?thesis by (simp add: parseAppHeader_def Let_def SplitN2_def)
next
  case (Some ab)
  obtain a b where ab: "ab = (a, b)" by (cases ab)
  have "valuesGet (Header r) headerAppName \<noteq> []"
    using Some by (cases "valuesGet (Header r) headerAppName") simp_all
  then show ?thesis using Some ab
    by (auto simp add: parseAppHeader_def Let_def SplitN2_def)
qed

lemma parseAppHeader_Some_iff:
  "parseAppHeader r = Some (scope, name) \<longleftrightarrow>
     scope \<noteq> [] \<and> name \<noteq> [] \<and> CHR '':'' \<notin> set scope \<and>
     valuesGet (Header r) headerAppName = scope @ CHR '':'' # name"
  unfolding parseAppHeader_cutAt cutAt_Some_iff by blast

lemma parseAppHeader_None_iff:
  "parseAppHeader r = None \<longleftrightarrow>
     \<not> (\<exists>scope name. scope \<noteq> [] \<and> name \<noteq> [] \<and> CHR '':'' \<notin> set scope \<and>
          valuesGet (Header r) headerAppName = scope @ CHR '':'' # name)"
proof -
  have "parseAppHeader r = None \<longleftrightarrow> \<not> (\<exists>scope name. parseAppHeader r = Some (scope, name))"
    by (cases "parseAppHeader r") auto
  then show ?thesis by (simp add: parseAppHeader_Some_iff)
qed

lemma Status_400_iff:
  "StatusCode (fst (Status L h r)) = 400 \<longleftrightarrow> parseAppHeader r = None"
  by (auto simp add: Status_def writeError_def writeJSON_def split: option.splits sum.splits prod.splits)

lemma Book_400_iff:
  "StatusCode (fst (Book L now h r)) = 400 \<longleftrightarrow>
     parseAppHeader r = None \<or> valuesGet (Header r) headerUsername = []"
  by (auto simp add: Book_def Let_def writeError_def writeJSON_def
      split: option.splits sum.splits prod.splits)

lemma Unbook_400_iff:
  "StatusCode (fst (Unbook L h r)) = 400 \<longleftrightarrow>
     parseAppHeader r = None \<or> valuesGet (Header r) headerUsername = []"
  by (auto simp add: Unbook_def Let_def writeError_def writeJSON_def
      split: option.splits sum.splits prod.splits)

lemma Status_400_cluster: "parseAppHeader r = None \<Longrightarrow> snd (Status L h r) = h"
  by (simp add: Status_def)

lemma Book_400_cluster:
  "parseAppHeader r = None \<or> valuesGet (Header r) headerUsername = [] \<Longrightarrow>
     snd (Book L now h r) = h"
  by (auto simp add: Book_def Let_def split: option.splits)

lemma Unbook_400_cluster:
  "parseAppHeader r = None \<or> valuesGet (Header r) headerUsername = [] \<Longrightarrow>
     snd (Unbook L h r) = h"
  by (auto simp add: Unbook_def Let_def split: option.splits)

text \<open>Every call of the client reaches the cluster, so it lengthens the log.\<close>

lemma client_calls_logged:
  "length (actions (snd (GetBookingStatus L c namespace appName))) > length (actions c)"
  "length (actions (snd (BookApp L now c namespace appName username))) > length (actions c)"
  "length (actions (snd (UnbookApp L c namespace appName username privileged))) > length (actions c)"
  "length (actions (snd (ListBookings c namespace))) > length (actions c)"
  by (auto simp add: GetBookingStatus_def BookApp_def UnbookApp_def ListBookings_def
      dynGet_def dynPatch_def dynList_def Let_def split: option.splits sum.splits prod.splits)

lemma List_namespace_cases:
  "ListBookings h ns = (Inr bs, h') \<Longrightarrow> elems bs = [] \<Longrightarrow>
     (if bs = NilSlice then Slice [] else bs) = Slice []"
  by (cases bs) simp_all

subsection \<open>The sample cluster\<close>

lemmas sample_defs =
  testCluster_def stampLib_def isStamp_def parseOrZero_def
  GetBookingStatus_def dynGet_def dynPatch_def dynList_def Let_def hasKey_def mapIndex_def
  AnnotationBookedBy_def AnnotationBookedAt_def annotation_def applyPatch_def mergePatch_def

lemma test_app1: "fst (GetBookingStatus stampLib testCluster ''argocd'' ''app1'') =
    Inr (''alice'', ''2026-01-15T10:00:00Z'')"
  by (simp add: sample_defs)

lemma test_app2: "fst (GetBookingStatus stampLib testCluster ''argocd'' ''app2'') =
    Inr ([], ''0001-01-01T00:00:00Z'')"
  by (simp add: sample_defs)

lemma test_faults: "faults testCluster v = None"
  by (simp add: testCluster_def)


lemma test_keys:
  "distinct (map (\<lambda>obj. (GetNamespace obj, GetName obj)) (objects testCluster))"
  by (simp add: testCluster_def)

section \<open>The claims\<close>

subsection \<open>Booking a free application\<close>




subsection \<open>Booking an application held by someone else\<close>

text \<open>
  Claim C2. On an application booked by \<open>u1\<close>, \<open>BookApp\<close> for another caller \<open>u2\<close>
  fails with the conflict error, whose message ends in \<open>u1\<close>; the only call made is the
  read, so no patch reaches the cluster, the objects are as before, and the application
  is still reported as booked by \<open>u1\<close> at the same time.
\<close>

theorem BookApp_conflict:
  assumes held: "fst (GetBookingStatus L c namespace appName) = Inr (u1, t)"
      and holder: "u1 \<noteq> []"
      and other: "u2 \<noteq> u1"
  shows "BookApp L now c namespace appName u2 =
           (Inl (''conflict: application already booked by '' @ u1),
            c\<lparr>actions := actions c @ [GetAction namespace appName]\<rparr>) \<and>
         objects (snd (BookApp L now c namespace appName u2)) = objects c \<and>
         fst (GetBookingStatus L (snd (BookApp L now c namespace appName u2)) namespace appName) =
           Inr (u1, t)"
proof -
  have "BookApp L now c namespace appName u2 =
           (Inl (''conflict: application already booked by '' @ u1),
            c\<lparr>actions := actions c @ [GetAction namespace appName]\<rparr>)"
    using holder other by (simp add: BookApp_def GetBookingStatus_eq [OF held])
  then show ?thesis using held by simp
qed

theorem BookApp_conflict_witness:
  "fst (GetBookingStatus stampLib testCluster ''argocd'' ''app1'') =
     Inr (''alice'', ''2026-01-15T10:00:00Z'') \<and> ''alice'' \<noteq> [] \<and> ''bob'' \<noteq> ''alice'' \<and>
   fst (BookApp stampLib ''2026-01-15T12:00:00Z'' testCluster ''argocd'' ''app1'' ''bob'') =
     Inl ''conflict: application already booked by alice'' \<and>
   objects (snd (BookApp stampLib ''2026-01-15T12:00:00Z'' testCluster ''argocd'' ''app1'' ''bob''))
     = objects testCluster"
proof -
  have h2: "''alice'' \<noteq> []" and h3: "''bob'' \<noteq> ''alice''" by simp_all
  show ?thesis
    using BookApp_conflict [OF test_app1 h2 h3, of "''2026-01-15T12:00:00Z''"] test_app1
    by simp
qed

subsection \<open>Booking again by the holder\<close>

text \<open>
  Claim C3. On an application booked by \<open>u\<close>, \<open>BookApp\<close> for \<open>u\<close> again succeeds and the
  holder is still \<open>u\<close>.
\<close>

theorem BookApp_same_holder:
  assumes held: "fst (GetBookingStatus L c namespace appName) = Inr (u, t)"
      and holder: "u \<noteq> []"
  shows "fst (BookApp L now c namespace appName u) = Inr () \<and>
         annotation (snd (BookApp L now c namespace appName u)) namespace appName
           AnnotationBookedBy = Some u \<and>
         fst (GetBookingStatus L (snd (BookApp L now c namespace appName u)) namespace appName) =
           Inr (u, t)"
proof -
  have b: "BookApp L now c namespace appName u =
           (Inr (), c\<lparr>actions := actions c @ [GetAction namespace appName]\<rparr>)"
    by (simp add: BookApp_def GetBookingStatus_eq [OF held])
  have "annotation c namespace appName AnnotationBookedBy = Some u"
    using held holder by (auto simp add: GetBookingStatus_Inr_iff split: option.splits)
  then show ?thesis using held b by simp
qed

theorem BookApp_same_holder_witness:
  "fst (GetBookingStatus stampLib testCluster ''argocd'' ''app1'') =
     Inr (''alice'', ''2026-01-15T10:00:00Z'') \<and> ''alice'' \<noteq> [] \<and>
   fst (BookApp stampLib ''2026-01-15T12:00:00Z'' testCluster ''argocd'' ''app1'' ''alice'') = Inr () \<and>
   fst (GetBookingStatus stampLib
          (snd (BookApp stampLib ''2026-01-15T12:00:00Z'' testCluster ''argocd'' ''app1'' ''alice''))
          ''argocd'' ''app1'') = Inr (''alice'', ''2026-01-15T10:00:00Z'')"
proof -
  have h2: "''alice'' \<noteq> []" by simp
  show ?thesis
    using BookApp_same_holder [OF test_app1 h2, of "''2026-01-15T12:00:00Z''"] test_app1
    by simp
qed

subsection \<open>Unbooking a held application\<close>

text \<open>
  Claim C4. On an application booked by \<open>u1\<close>: when the caller is \<open>u1\<close> or is
  privileged, and the patch verb works, \<open>UnbookApp\<close> succeeds with one merge patch that
  sets both annotations to null, after which neither is stored and the application is
  reported as not booked; when the caller is someone else and not privileged, it
  fails with the forbidden error, whose message names \<open>u1\<close>, having made only the read,
  and the application is still booked by \<open>u1\<close>.
\<close>

theorem UnbookApp_held:
  assumes held: "fst (GetBookingStatus L c namespace appName) = Inr (u1, t)"
      and holder: "u1 \<noteq> []"
  shows "((u2 = u1 \<or> privileged) \<and> faults c VerbPatch = None \<longrightarrow>
            fst (UnbookApp L c namespace appName u2 privileged) = Inr () \<and>
            actions (snd (UnbookApp L c namespace appName u2 privileged)) =
              actions c @ [GetAction namespace appName,
                           PatchAction namespace appName
                             [AnnotationBookedBy \<mapsto> None, AnnotationBookedAt \<mapsto> None]] \<and>
            annotation (snd (UnbookApp L c namespace appName u2 privileged)) namespace appName
              AnnotationBookedBy = None \<and>
            annotation (snd (UnbookApp L c namespace appName u2 privileged)) namespace appName
              AnnotationBookedAt = None \<and>
            fst (GetBookingStatus L (snd (UnbookApp L c namespace appName u2 privileged))
                   namespace appName) = Inr ([], zeroTime L)) \<and>
         (u2 \<noteq> u1 \<and> \<not> privileged \<longrightarrow>
            UnbookApp L c namespace appName u2 privileged =
              (Inl (''forbidden: application is booked by '' @ u1
                    @ '', only they or an admin can unbook''),
               c\<lparr>actions := actions c @ [GetAction namespace appName]\<rparr>) \<and>
            fst (GetBookingStatus L (snd (UnbookApp L c namespace appName u2 privileged))
                   namespace appName) = Inr (u1, t))"
proof (intro conjI impI)
  let ?c1 = "c\<lparr>actions := actions c @ [GetAction namespace appName]\<rparr>"
  let ?p = "[AnnotationBookedBy \<mapsto> None, AnnotationBookedAt \<mapsto> None] :: patch"
  let ?r = "UnbookApp L c namespace appName u2 privileged"
  from held obtain obj where get_ok: "faults c VerbGet = None"
    and found: "find (hasKey namespace appName) (objects c) = Some obj"
    by (auto simp add: GetBookingStatus_Inr_iff)
  {
    assume a: "(u2 = u1 \<or> privileged) \<and> faults c VerbPatch = None"
    have p1: "faults ?c1 VerbPatch = None"
      "find (hasKey namespace appName) (objects ?c1) = Some obj"
      using a found by simp_all
    have r: "?r = (Inr (), snd (dynPatch ?c1 namespace appName ?p))"
      using a holder
      by (auto simp add: UnbookApp_def GetBookingStatus_eq [OF held] dynPatch_ok [OF p1] Let_def)
    let ?c2 = "snd (dynPatch ?c1 namespace appName ?p)"
    have a1: "annotation ?c2 namespace appName AnnotationBookedBy = None"
      by (simp add: annotation_dynPatch [OF p1] annotation_keys_distinct)
    have a2: "annotation ?c2 namespace appName AnnotationBookedAt = None"
      by (simp add: annotation_dynPatch [OF p1])
    have f2: "faults ?c2 VerbGet = None"
      "\<exists>o'. find (hasKey namespace appName) (objects ?c2) = Some o'"
      using get_ok found by (simp_all add: dynPatch_ok [OF p1] find_patched)
    have q: "fst (GetBookingStatus L ?c2 namespace appName) = Inr ([], zeroTime L)"
      using f2 by (simp add: GetBookingStatus_Inr_iff a1 a2)
    have acts: "actions ?c2 =
        actions c @ [GetAction namespace appName, PatchAction namespace appName ?p]"
      by (simp add: dynPatch_ok [OF p1])
    show "fst ?r = Inr ()" by (simp add: r)
    show "actions (snd ?r) =
        actions c @ [GetAction namespace appName, PatchAction namespace appName ?p]"
      using acts by (simp add: r)
    show "annotation (snd ?r) namespace appName AnnotationBookedBy = None"
      using a1 by (simp add: r)
    show "annotation (snd ?r) namespace appName AnnotationBookedAt = None"
      using a2 by (simp add: r)
    show "fst (GetBookingStatus L (snd ?r) namespace appName) = Inr ([], zeroTime L)"
      using q by (simp add: r)
  }
  {
    assume a: "u2 \<noteq> u1 \<and> \<not> privileged"
    show r: "?r = (Inl (''forbidden: application is booked by '' @ u1
                    @ '', only they or an admin can unbook''), ?c1)"
      using a holder by (auto simp add: UnbookApp_def GetBookingStatus_eq [OF held])
    show "fst (GetBookingStatus L (snd ?r) namespace appName) = Inr (u1, t)"
      using held by (simp add: r)
  }
qed

theorem UnbookApp_held_witness:
  "fst (GetBookingStatus stampLib testCluster ''argocd'' ''app1'') =
     Inr (''alice'', ''2026-01-15T10:00:00Z'') \<and> ''alice'' \<noteq> [] \<and>
   faults testCluster VerbPatch = None \<and>
   fst (UnbookApp stampLib testCluster ''argocd'' ''app1'' ''alice'' False) = Inr () \<and>
   fst (UnbookApp stampLib testCluster ''argocd'' ''app1'' ''bob'' True) = Inr () \<and>
   fst (GetBookingStatus stampLib (snd (UnbookApp stampLib testCluster ''argocd'' ''app1'' ''bob'' True))
          ''argocd'' ''app1'') = Inr ([], ''0001-01-01T00:00:00Z'') \<and>
   fst (UnbookApp stampLib testCluster ''argocd'' ''app1'' ''bob'' False) =
     Inl ''forbidden: application is booked by alice, only they or an admin can unbook''"
proof -
  have h2: "''alice'' \<noteq> []" by simp
  have z: "zeroTime stampLib = ''0001-01-01T00:00:00Z''" by (simp add: stampLib_def)
  show ?thesis
    using UnbookApp_held [OF test_app1 h2, of "''alice''" False]
      UnbookApp_held [OF test_app1 h2, of "''bob''" True]
      UnbookApp_held [OF test_app1 h2, of "''bob''" False]
      test_app1 test_faults [of VerbPatch]
    by (simp add: z)
qed

subsection \<open>Unbooking a free application\<close>

text \<open>
  Claim C5. On an application that is not booked, \<open>UnbookApp\<close> succeeds for every caller
  and either value of the privilege flag; it makes only the read, and the application
  stays not booked.
\<close>

theorem UnbookApp_unlocked:
  assumes unlocked: "fst (GetBookingStatus L c namespace appName) = Inr ([], t0)"
  shows "UnbookApp L c namespace appName caller privileged =
           (Inr (), c\<lparr>actions := actions c @ [GetAction namespace appName]\<rparr>) \<and>
         objects (snd (UnbookApp L c namespace appName caller privileged)) = objects c \<and>
         fst (GetBookingStatus L (snd (UnbookApp L c namespace appName caller privileged))
                namespace appName) = Inr ([], t0)"
proof -
  have "UnbookApp L c namespace appName caller privileged =
           (Inr (), c\<lparr>actions := actions c @ [GetAction namespace appName]\<rparr>)"
    by (simp add: UnbookApp_def GetBookingStatus_eq [OF unlocked])
  then show ?thesis using unlocked by simp
qed

theorem UnbookApp_unlocked_witness:
  "fst (GetBookingStatus stampLib testCluster ''argocd'' ''app2'') =
     Inr ([], ''0001-01-01T00:00:00Z'') \<and>
   fst (UnbookApp stampLib testCluster ''argocd'' ''app2'' ''bob'' False) = Inr () \<and>
   actions (snd (UnbookApp stampLib testCluster ''argocd'' ''app2'' ''bob'' False)) =
     [GetAction ''argocd'' ''app2''] \<and>
   objects (snd (UnbookApp stampLib testCluster ''argocd'' ''app2'' ''bob'' False)) =
     objects testCluster"
proof -
  have a: "actions testCluster = []" by (simp add: testCluster_def)
  show ?thesis
    using UnbookApp_unlocked [OF test_app2, of "''bob''" False] test_app2
    by (simp add: a)
qed

subsection \<open>A holder without a time\<close>

text \<open>
  Claim C6 as stated says that a holder without a time is treated as not booked. On the
  sample cluster \<open>app4\<close> names \<open>carol\<close> as holder and has no time annotation, yet
  \<open>dave\<close> is refused on both operations.
\<close>

theorem holder_without_time_counterexample:
  "annotation testCluster ''argocd'' ''app4'' AnnotationBookedBy = Some ''carol'' \<and>
   annotation testCluster ''argocd'' ''app4'' AnnotationBookedAt = None \<and>
   fst (BookApp stampLib ''2026-01-15T12:00:00Z'' testCluster ''argocd'' ''app4'' ''dave'') =
     Inl ''conflict: application already booked by carol'' \<and>
   fst (UnbookApp stampLib testCluster ''argocd'' ''app4'' ''dave'' False) =
     Inl ''forbidden: application is booked by carol, only they or an admin can unbook''"
  by (simp add: BookApp_def UnbookApp_def sample_defs)

text \<open>
  Claim C6, as the code has it. The time annotation plays no part in authorization: an
  application whose annotations name a holder \<open>u1\<close> while the time annotation is absent
  (it then reads as the empty string) or does not parse is reported as booked by \<open>u1\<close>
  at the zero time, \<open>BookApp\<close> for another caller fails with the conflict error, and
  \<open>UnbookApp\<close> for another caller without privilege fails with the forbidden error,
  both after the read alone.
\<close>

theorem holder_without_time_is_held:
  assumes get_ok: "faults c VerbGet = None"
      and holder: "annotation c namespace appName AnnotationBookedBy = Some u1" "u1 \<noteq> []"
      and no_time: "ParseRFC3339 L (case annotation c namespace appName AnnotationBookedAt of
                                      None \<Rightarrow> [] | Some v \<Rightarrow> v) = None"
      and other: "u2 \<noteq> u1"
  shows "fst (GetBookingStatus L c namespace appName) = Inr (u1, zeroTime L) \<and>
         BookApp L now c namespace appName u2 =
           (Inl (''conflict: application already booked by '' @ u1),
            c\<lparr>actions := actions c @ [GetAction namespace appName]\<rparr>) \<and>
         UnbookApp L c namespace appName u2 False =
           (Inl (''forbidden: application is booked by '' @ u1
                 @ '', only they or an admin can unbook''),
            c\<lparr>actions := actions c @ [GetAction namespace appName]\<rparr>)"
proof -
  have found: "\<exists>obj. find (hasKey namespace appName) (objects c) = Some obj"
    using holder(1) by (auto simp add: annotation_def split: option.splits)
  have held: "fst (GetBookingStatus L c namespace appName) = Inr (u1, zeroTime L)"
    using get_ok holder no_time found
    by (simp add: GetBookingStatus_Inr_iff parseOrZero_def)
  have "BookApp L now c namespace appName u2 =
           (Inl (''conflict: application already booked by '' @ u1),
            c\<lparr>actions := actions c @ [GetAction namespace appName]\<rparr>)"
    using holder(2) other by (simp add: BookApp_def GetBookingStatus_eq [OF held])
  moreover have "UnbookApp L c namespace appName u2 False =
           (Inl (''forbidden: application is booked by '' @ u1
                 @ '', only they or an admin can unbook''),
            c\<lparr>actions := actions c @ [GetAction namespace appName]\<rparr>)"
    using holder(2) other by (auto simp add: UnbookApp_def GetBookingStatus_eq [OF held])
  ultimately show ?thesis using held by simp
qed

theorem holder_without_time_is_held_witness:
  "faults testCluster VerbGet = None \<and>
   annotation testCluster ''argocd'' ''app4'' AnnotationBookedBy = Some ''carol'' \<and>
   ''carol'' \<noteq> [] \<and>
   ParseRFC3339 stampLib
     (case annotation testCluster ''argocd'' ''app4'' AnnotationBookedAt of
        None \<Rightarrow> [] | Some v \<Rightarrow> v) = None \<and>
   ''dave'' \<noteq> ''carol'' \<and>
   fst (GetBookingStatus stampLib testCluster ''argocd'' ''app4'') =
     Inr (''carol'', ''0001-01-01T00:00:00Z'') \<and>
   fst (BookApp stampLib ''2026-01-15T12:00:00Z'' testCluster ''argocd'' ''app4'' ''dave'') =
     Inl ''conflict: application already booked by carol'' \<and>
   fst (UnbookApp stampLib testCluster ''argocd'' ''app4'' ''dave'' False) =
     Inl ''forbidden: application is booked by carol, only they or an admin can unbook''"
proof -
  have h2: "annotation testCluster ''argocd'' ''app4'' AnnotationBookedBy = Some ''carol''"
    by (simp add: sample_defs)
  have h3: "''carol'' \<noteq> []" by simp
  have h4: "ParseRFC3339 stampLib
     (case annotation testCluster ''argocd'' ''app4'' AnnotationBookedAt of
        None \<Rightarrow> [] | Some v \<Rightarrow> v) = None"
    by (simp add: sample_defs)
  have h5: "''dave'' \<noteq> ''carol''" by simp
  have z: "zeroTime stampLib = ''0001-01-01T00:00:00Z''" by (simp add: stampLib_def)
  show ?thesis
    using holder_without_time_is_held [OF test_faults h2 h3 h4 h5, of "''2026-01-15T12:00:00Z''"]
      test_faults [of VerbGet] h2 h4
    by (simp add: z)
qed

subsection \<open>Listing the bookings\<close>

text \<open>
  Claim C7. With the list and get verbs working and no two objects sharing a namespace
  and name, \<open>ListBookings\<close> returns exactly the bookings in scope, the scope being the
  namespace asked for, or every namespace when the empty one is asked for: a record
  is in the result if and only if its namespace is in scope, its holder is not empty,
  and it carries the holder and time that \<open>GetBookingStatus\<close> reports for its
  application, the time as the text stored in the annotation. An application in scope
  that is reported as not booked (no annotations, no holder annotation, or an empty
  one) has no record.
\<close>

theorem ListBookings_exact:
  assumes list_ok: "faults c VerbList = None"
      and get_ok: "faults c VerbGet = None"
      and keys: "distinct (map (\<lambda>obj. (GetNamespace obj, GetName obj)) (objects c))"
  shows "\<exists>bs. ListBookings c namespace =
                (Inr bs, c\<lparr>actions := actions c @ [ListAction namespace]\<rparr>) \<and>
              (\<forall>b. b \<in> set (elems bs) \<longleftrightarrow>
                     (namespace = [] \<or> Namespace b = namespace) \<and> BookedBy b \<noteq> [] \<and>
                     fst (GetBookingStatus L c (Namespace b) (AppName b)) =
                       Inr (BookedBy b, parseOrZero L (BookedAt b)) \<and>
                     BookedAt b =
                       (case annotation c (Namespace b) (AppName b) AnnotationBookedAt of
                          None \<Rightarrow> [] | Some v \<Rightarrow> v)) \<and>
              (\<forall>ns name. (namespace = [] \<or> ns = namespace) \<and>
                      fst (GetBookingStatus L c ns name) = Inr ([], zeroTime L) \<longrightarrow>
                      (\<forall>b \<in> set (elems bs). \<not> (Namespace b = ns \<and> AppName b = name)))"
proof -
  let ?items = "filter (\<lambda>obj. namespace = [] \<or> GetNamespace obj = namespace) (objects c)"
  let ?bs = "collectBookings ?items NilSlice"
  have run: "ListBookings c namespace =
      (Inr ?bs, c\<lparr>actions := actions c @ [ListAction namespace]\<rparr>)"
    using list_ok by (simp add: ListBookings_def dynList_def Let_def dynList_filter)
  have el: "elems ?bs = List.map_filter extractBooking ?items"
    by (simp add: elems_collectBookings)
  have mem: "b \<in> set (elems ?bs) \<longleftrightarrow>
       (namespace = [] \<or> Namespace b = namespace) \<and> BookedBy b \<noteq> [] \<and>
       fst (GetBookingStatus L c (Namespace b) (AppName b)) =
         Inr (BookedBy b, parseOrZero L (BookedAt b)) \<and>
       BookedAt b = (case annotation c (Namespace b) (AppName b) AnnotationBookedAt of
                       None \<Rightarrow> [] | Some v \<Rightarrow> v)" for b
    unfolding el listed_iff [OF keys, of b "\<lambda>ns. namespace = [] \<or> ns = namespace"]
      GetBookingStatus_Inr_iff
    using get_ok by (auto simp add: annotation_def split: option.splits)
  have omit: "\<not> (Namespace b = ns \<and> AppName b = name)"
    if "fst (GetBookingStatus L c ns name) = Inr ([], zeroTime L)" "b \<in> set (elems ?bs)"
    for ns name b
  proof
    assume "Namespace b = ns \<and> AppName b = name"
    with mem [of b] that show False by auto
  qed
  show ?thesis using run mem omit by blast
qed

theorem ListBookings_exact_witness:
  "faults testCluster VerbList = None \<and> faults testCluster VerbGet = None \<and>
   distinct (map (\<lambda>obj. (GetNamespace obj, GetName obj)) (objects testCluster)) \<and>
   (\<exists>bs. fst (ListBookings testCluster ''argocd'') = Inr bs \<and>
      \<lparr>AppName = ''app1'', Namespace = ''argocd'', BookedBy = ''alice'',
        BookedAt = ''2026-01-15T10:00:00Z''\<rparr> \<in> set (elems bs) \<and>
      (\<forall>b \<in> set (elems bs). \<not> (Namespace b = ''argocd'' \<and> AppName b = ''app2''))) \<and>
   (\<exists>bs. fst (ListBookings testCluster []) = Inr bs \<and>
      \<lparr>AppName = ''app1'', Namespace = ''argocd'', BookedBy = ''alice'',
        BookedAt = ''2026-01-15T10:00:00Z''\<rparr> \<in> set (elems bs) \<and>
      (\<forall>b \<in> set (elems bs). \<not> (Namespace b = ''argocd'' \<and> AppName b = ''app2'')))"
proof -
  have z: "zeroTime stampLib = ''0001-01-01T00:00:00Z''" by (simp add: stampLib_def)
  have p: "parseOrZero stampLib ''2026-01-15T10:00:00Z'' = ''2026-01-15T10:00:00Z''"
    by (simp add: parseOrZero_def stampLib_def isStamp_def)
  have s: "annotation testCluster ''argocd'' ''app1'' AnnotationBookedAt =
      Some ''2026-01-15T10:00:00Z''"
    by (simp add: sample_defs)
  have free: "fst (GetBookingStatus stampLib testCluster ''argocd'' ''app2'') =
      Inr ([], zeroTime stampLib)"
    by (simp add: test_app2 z)
  have one: "\<exists>bs. fst (ListBookings testCluster namespace) = Inr bs \<and>
      \<lparr>AppName = ''app1'', Namespace = ''argocd'', BookedBy = ''alice'',
        BookedAt = ''2026-01-15T10:00:00Z''\<rparr> \<in> set (elems bs) \<and>
      (\<forall>b \<in> set (elems bs). \<not> (Namespace b = ''argocd'' \<and> AppName b = ''app2''))"
    if scope: "namespace = [] \<or> ''argocd'' = namespace" for namespace
  proof -
    from ListBookings_exact [OF test_faults test_faults test_keys, of namespace stampLib]
    obtain bs where run: "ListBookings testCluster namespace =
          (Inr bs, testCluster\<lparr>actions := actions testCluster @ [ListAction namespace]\<rparr>)"
      and mem: "\<And>b. b \<in> set (elems bs) \<longleftrightarrow>
          (namespace = [] \<or> Namespace b = namespace) \<and> BookedBy b \<noteq> [] \<and>
          fst (GetBookingStatus stampLib testCluster (Namespace b) (AppName b)) =
            Inr (BookedBy b, parseOrZero stampLib (BookedAt b)) \<and>
          BookedAt b =
            (case annotation testCluster (Namespace b) (AppName b) AnnotationBookedAt of
               None \<Rightarrow> [] | Some v \<Rightarrow> v)"
      and omit: "\<And>ns name. (namespace = [] \<or> ns = namespace) \<and>
          fst (GetBookingStatus stampLib testCluster ns name) = Inr ([], zeroTime stampLib) \<Longrightarrow>
          (\<forall>b \<in> set (elems bs). \<not> (Namespace b = ns \<and> AppName b = name))"
      by blast
    have "\<lparr>AppName = ''app1'', Namespace = ''argocd'', BookedBy = ''alice'',
          BookedAt = ''2026-01-15T10:00:00Z''\<rparr> \<in> set (elems bs)"
      using scope by (simp add: mem test_app1 p s)
    moreover have "\<forall>b \<in> set (elems bs). \<not> (Namespace b = ''argocd'' \<and> AppName b = ''app2'')"
      using omit [of "''argocd''" "''app2''"] scope free by blast
    ultimately show ?thesis using run by auto
  qed
  show ?thesis using one [of "''argocd''"] one [of "[]"] test_faults test_keys by simp
qed

subsection \<open>Bad requests\<close>

text \<open>
  Claim C8. \<open>Status\<close> answers 400 exactly when the application header, as \<open>Header.Get\<close>
  reads it, is not a namespace without a colon, a colon and a name, both not empty
  (an absent header reads as the empty string); \<open>Book\<close> and \<open>Unbook\<close> answer 400
  exactly then or when the user name header reads as the empty string. With a 400 the
  cluster is returned as it was, call log included, so the client was not called.
\<close>

theorem bad_request_iff:
  "(StatusCode (fst (Status L h r)) = 400 \<longleftrightarrow>
      \<not> (\<exists>scope name. scope \<noteq> [] \<and> name \<noteq> [] \<and> CHR '':'' \<notin> set scope \<and>
           valuesGet (Header r) headerAppName = scope @ CHR '':'' # name)) \<and>
   (StatusCode (fst (Book L now h r)) = 400 \<longleftrightarrow>
      \<not> (\<exists>scope name. scope \<noteq> [] \<and> name \<noteq> [] \<and> CHR '':'' \<notin> set scope \<and>
           valuesGet (Header r) headerAppName = scope @ CHR '':'' # name) \<or>
      valuesGet (Header r) headerUsername = []) \<and>
   (StatusCode (fst (Unbook L h r)) = 400 \<longleftrightarrow>
      \<not> (\<exists>scope name. scope \<noteq> [] \<and> name \<noteq> [] \<and> CHR '':'' \<notin> set scope \<and>
           valuesGet (Header r) headerAppName = scope @ CHR '':'' # name) \<or>
      valuesGet (Header r) headerUsername = []) \<and>
   (StatusCode (fst (Status L h r)) = 400 \<longrightarrow> snd (Status L h r) = h) \<and>
   (StatusCode (fst (Book L now h r)) = 400 \<longrightarrow> snd (Book L now h r) = h) \<and>
   (StatusCode (fst (Unbook L h r)) = 400 \<longrightarrow> snd (Unbook L h r) = h)"
  unfolding Status_400_iff Book_400_iff Unbook_400_iff
  using Status_400_cluster [of r L h] Book_400_cluster [of r L now h] Unbook_400_cluster [of r L h]
  by (simp add: parseAppHeader_None_iff)

theorem bad_request_iff_witness:
  "StatusCode (fst (Book stampLib ''2026-01-15T12:00:00Z'' testCluster
                      (testRequest ''app2'' [''alice'']))) = 400 \<and>
   snd (Book stampLib ''2026-01-15T12:00:00Z'' testCluster (testRequest ''app2'' [''alice'']))
     = testCluster \<and>
   StatusCode (fst (Unbook stampLib testCluster (testRequest ''argocd:app2'' []))) = 400 \<and>
   snd (Unbook stampLib testCluster (testRequest ''argocd:app2'' [])) = testCluster \<and>
   StatusCode (fst (Status stampLib testCluster (testRequest '':app2'' []))) = 400 \<and>
   snd (Status stampLib testCluster (testRequest '':app2'' [])) = testCluster \<and>
   StatusCode (fst (Status stampLib testCluster (testRequest ''argocd:app2'' []))) \<noteq> 400"
proof -
  have names: "headerAppName \<noteq> headerUsername"
    by (simp add: headerAppName_def headerUsername_def)
  have g1: "valuesGet (Header (testRequest ''app2'' [''alice''])) headerAppName = ''app2''"
    and g2: "valuesGet (Header (testRequest ''argocd:app2'' [])) headerAppName = ''argocd:app2''"
    and g3: "valuesGet (Header (testRequest ''argocd:app2'' [])) headerUsername = []"
    and g4: "valuesGet (Header (testRequest '':app2'' [])) headerAppName = '':app2''"
    using names by (simp_all add: testRequest_def valuesGet_def)
  have n1: "\<not> (\<exists>scope name. scope \<noteq> [] \<and> name \<noteq> [] \<and> CHR '':'' \<notin> set scope \<and>
               ''app2'' = scope @ CHR '':'' # name)"
  proof
    assume "\<exists>scope name. scope \<noteq> [] \<and> name \<noteq> [] \<and> CHR '':'' \<notin> set scope \<and>
               ''app2'' = scope @ CHR '':'' # name"
    then obtain scope name where "''app2'' = scope @ CHR '':'' # name" by blast
    then have "CHR '':'' \<in> set ''app2''" by (metis in_set_conv_decomp)
    then show False by simp
  qed
  have n4: "\<not> (\<exists>scope name. scope \<noteq> [] \<and> name \<noteq> [] \<and> CHR '':'' \<notin> set scope \<and>
               '':app2'' = scope @ CHR '':'' # name)"
  proof
    assume "\<exists>scope name. scope \<noteq> [] \<and> name \<noteq> [] \<and> CHR '':'' \<notin> set scope \<and>
               '':app2'' = scope @ CHR '':'' # name"
    then obtain scope name where sn: "scope \<noteq> []" "CHR '':'' \<notin> set scope"
      "'':app2'' = scope @ CHR '':'' # name" by blast
    then show False by (cases scope) auto
  qed
  have y2: "\<exists>scope name. scope \<noteq> [] \<and> name \<noteq> [] \<and> CHR '':'' \<notin> set scope \<and>
               ''argocd:app2'' = scope @ CHR '':'' # name"
    by (rule exI [of _ "''argocd''"], rule exI [of _ "''app2''"]) simp
  show ?thesis
    using bad_request_iff [of stampLib testCluster "testRequest ''app2'' [''alice'']"
        "''2026-01-15T12:00:00Z''"]
      bad_request_iff [of stampLib testCluster "testRequest ''argocd:app2'' []"
        "''2026-01-15T12:00:00Z''"]
      bad_request_iff [of stampLib testCluster "testRequest '':app2'' []"
        "''2026-01-15T12:00:00Z''"]
    unfolding g1 g2 g3 g4 using n1 n4 y2 by blast
qed

subsection \<open>Booking again writes nothing\<close>

text \<open>
  Claim C9. When the holder books again, the read is the only call that reaches the
  cluster: no patch is issued, the objects are unchanged, so the stored time
  annotation is the old one, and the application is reported with the same holder and
  the same time as before.
\<close>

theorem BookApp_same_holder_no_patch:
  assumes held: "fst (GetBookingStatus L c namespace appName) = Inr (u, t)"
      and holder: "u \<noteq> []"
  shows "actions (snd (BookApp L now c namespace appName u)) =
           actions c @ [GetAction namespace appName] \<and>
         objects (snd (BookApp L now c namespace appName u)) = objects c \<and>
         annotation (snd (BookApp L now c namespace appName u)) namespace appName
           AnnotationBookedAt = annotation c namespace appName AnnotationBookedAt \<and>
         fst (GetBookingStatus L (snd (BookApp L now c namespace appName u)) namespace appName) =
           Inr (u, t)"
proof -
  have b: "BookApp L now c namespace appName u =
           (Inr (), c\<lparr>actions := actions c @ [GetAction namespace appName]\<rparr>)"
    by (simp add: BookApp_def GetBookingStatus_eq [OF held])
  show ?thesis using held by (simp add: b)
qed

theorem BookApp_same_holder_no_patch_witness:
  "fst (GetBookingStatus stampLib testCluster ''argocd'' ''app1'') =
     Inr (''alice'', ''2026-01-15T10:00:00Z'') \<and> ''alice'' \<noteq> [] \<and>
   actions (snd (BookApp stampLib ''2026-01-15T12:00:00Z'' testCluster ''argocd'' ''app1'' ''alice''))
     = [GetAction ''argocd'' ''app1''] \<and>
   annotation (snd (BookApp stampLib ''2026-01-15T12:00:00Z'' testCluster ''argocd'' ''app1'' ''alice''))
     ''argocd'' ''app1'' AnnotationBookedAt = Some ''2026-01-15T10:00:00Z''"
proof -
  have h2: "''alice'' \<noteq> []" by simp
  have a: "actions testCluster = []" by (simp add: testCluster_def)
  have s: "annotation testCluster ''argocd'' ''app1'' AnnotationBookedAt =
      Some ''2026-01-15T10:00:00Z''"
    by (simp add: sample_defs)
  show ?thesis
    using BookApp_same_holder_no_patch [OF test_app1 h2, of "''2026-01-15T12:00:00Z''"] test_app1
    by (simp add: a s)
qed

subsection \<open>An empty list of bookings\<close>

text \<open>
  Claim C10. When \<open>ListBookings\<close> succeeds with no booking, nil slice or empty, \<open>List\<close>
  answers 200 with the empty JSON array, not \<^verbatim>\<open>null\<close>.
\<close>

theorem List_empty_is_array:
  assumes ok: "fst (ListBookings h
                 (if valuesGet (URLQuery r) ''namespace'' = [] then ''argocd''
                  else valuesGet (URLQuery r) ''namespace'')) = Inr bs"
      and none: "elems bs = []"
  shows "fst (List h r) =
           \<lparr>StatusCode = 200, ContentType = ''application/json'', Body = JArray []\<rparr> \<and>
         Body (fst (List h r)) \<noteq> JNull"
proof -
  let ?ns = "if valuesGet (URLQuery r) ''namespace'' = [] then ''argocd''
             else valuesGet (URLQuery r) ''namespace''"
  obtain h' where run: "ListBookings h ?ns = (Inr bs, h')"
    using ok by (cases "ListBookings h ?ns") simp
  have "fst (List h r) = writeJSON 200 (bookingsJSON (if bs = NilSlice then Slice [] else bs))"
    using run by (simp add: List_def Let_def)
  also have "(if bs = NilSlice then Slice [] else bs) = Slice []"
    using none by (cases bs) simp_all
  finally show ?thesis by (simp add: writeJSON_def)
qed

theorem List_empty_is_array_witness:
  "fst (ListBookings testCluster ''staging'') = Inr NilSlice \<and> elems (NilSlice :: Booking slice) = [] \<and>
   fst (List testCluster \<lparr>Header = Map.empty, URLQuery = [''namespace'' \<mapsto> [''staging'']]\<rparr>) =
     \<lparr>StatusCode = 200, ContentType = ''application/json'', Body = JArray []\<rparr>"
proof -
  let ?r = "\<lparr>Header = Map.empty, URLQuery = [''namespace'' \<mapsto> [''staging'']]\<rparr>"
  have q: "valuesGet (URLQuery ?r) ''namespace'' = ''staging''"
    by (simp add: valuesGet_def)
  have l: "fst (ListBookings testCluster ''staging'') = Inr NilSlice"
    by (simp add: ListBookings_def dynList_def Let_def testCluster_def)
  have ok: "fst (ListBookings testCluster
                 (if valuesGet (URLQuery ?r) ''namespace'' = [] then ''argocd''
                  else valuesGet (URLQuery ?r) ''namespace'')) = Inr NilSlice"
    unfolding q using l by simp
  have none: "elems (NilSlice :: Booking slice) = []" by simp
  show ?thesis using List_empty_is_array [OF ok none] l by simp
qed

end
